theory Spec2Isabelle
  imports Main "HOL-Library.Sublist"
begin

section \<open>Python values\<close>

text \<open>
  A Python \<open>str\<close> is a sequence of Unicode code points and \<open>len\<close> counts code points.
  Texts are therefore lists of code points; \<open>py\<close> turns an ASCII literal into such a
  list. \<open>bytes\<close> are lists of byte values. Python integers are unbounded: \<open>int\<close>.
\<close>

type_synonym codepoint = nat
type_synonym pystr = "codepoint list"
type_synonym pybytes = "nat list"

definition cp :: "char \<Rightarrow> codepoint" where
  "cp c = of_char c"

definition py :: "string \<Rightarrow> pystr" where
  "py s = map cp s"

definition py_len :: "'a list \<Rightarrow> int" where
  "py_len xs = int (length xs)"

text \<open>\<open>xs[i:]\<close>: a negative index counts from the end, and is clamped at the start.\<close>

definition py_slice_from :: "int \<Rightarrow> 'a list \<Rightarrow> 'a list" where
  "py_slice_from i xs =
     (if 0 \<le> i then drop (nat i) xs else drop (nat (py_len xs + i)) xs)"

text \<open>\<open>xs[0:i]\<close>, with the same convention.\<close>

definition py_slice_to :: "int \<Rightarrow> 'a list \<Rightarrow> 'a list" where
  "py_slice_to i xs =
     (if 0 \<le> i then take (nat i) xs else take (nat (py_len xs + i)) xs)"

section \<open>floss.results\<close>

text \<open>
  Modelled from the spec: \<open>floss.results\<close> (with \<open>StringEncoding\<close>, \<open>StaticString\<close> and
  \<open>TightString\<close>) is imported by the sources but is not among them. The spec gives
  \<open>StaticString\<close> the fields text, offset and encoding, and \<open>TightString\<close> the fields
  listed below; the field names are the ones the sources use. Two records are equal
  when all their fields are.
\<close>

datatype StringEncoding = ASCII | UTF16LE | UTF8

record StaticString =
  string :: pystr
  offset :: int
  encoding :: StringEncoding

record TightString =
  function_va :: int
  ts_string :: pystr
  ts_encoding :: StringEncoding
  program_counter :: int
  stack_pointer :: int
  initial_stack_pointer :: int
  stack_offset :: int
  frame_offset :: int

section \<open>floss/language/rust/extract.py: split_strings\<close>

text \<open>
  \<open>split_strings\<close> mutates the list it is given and returns nothing; the model returns
  the list as it is after the call. \<open>inside s address\<close> is the test of line 126.
\<close>

definition inside :: "StaticString \<Rightarrow> int \<Rightarrow> bool" where
  "inside s address \<longleftrightarrow>
     offset s < address \<and> address < offset s + py_len (string s)"

text \<open>
  The body of the \<open>if\<close> (lines 127 to 151) for the string that was hit: both halves are
  appended when long enough, then the first element equal to the string is removed
  (\<open>list.remove\<close> deletes the first equal element) and the function returns.
\<close>

definition split_at :: "StaticString list \<Rightarrow> StaticString \<Rightarrow> int \<Rightarrow> int \<Rightarrow> StaticString list" where
  "split_at static_strings s address min_length =
     (let rust_string = py_slice_to (address - offset s) (string s);
          rest = py_slice_from (address - offset s) (string s);
          l1 = (if py_len rust_string \<ge> min_length
                then static_strings @ [\<lparr>string = rust_string, offset = offset s, encoding = UTF8\<rparr>]
                else static_strings);
          l2 = (if py_len rest \<ge> min_length
                then l1 @ [\<lparr>string = rest, offset = address, encoding = UTF8\<rparr>]
                else l1)
      in remove1 s l2)"

text \<open>
  The outer \<open>for\<close> loop: \<open>todo\<close> is what the iteration has not visited yet. The loop
  ends at the first hit, so the list is never changed while the iteration goes on.
\<close>

fun split_loop :: "StaticString list \<Rightarrow> StaticString list \<Rightarrow> int \<Rightarrow> int \<Rightarrow> StaticString list" where
  "split_loop static_strings [] address min_length = static_strings"
| "split_loop static_strings (s # todo) address min_length =
     (if inside s address then split_at static_strings s address min_length
      else split_loop static_strings todo address min_length)"

definition split_strings :: "StaticString list \<Rightarrow> int \<Rightarrow> int \<Rightarrow> StaticString list" where
  "split_strings static_strings address min_length =
     split_loop static_strings static_strings address min_length"

text \<open>The two halves, and which of them are kept.\<close>

definition first_part :: "StaticString \<Rightarrow> int \<Rightarrow> StaticString" where
  "first_part s address =
     \<lparr>string = take (nat (address - offset s)) (string s), offset = offset s, encoding = UTF8\<rparr>"

definition second_part :: "StaticString \<Rightarrow> int \<Rightarrow> StaticString" where
  "second_part s address =
     \<lparr>string = drop (nat (address - offset s)) (string s), offset = address, encoding = UTF8\<rparr>"

definition kept :: "int \<Rightarrow> StaticString \<Rightarrow> StaticString list" where
  "kept min_length p = (if min_length \<le> py_len (string p) then [p] else [])"

section \<open>floss/utils.py: the false-positive filter\<close>

text \<open>
  \<open>re.sub(reg, "", s)\<close> deletes the matches of a pattern, found from left to right:
  at each position the pattern is tried; when it matches, the matched characters are
  dropped and the search goes on behind them, otherwise the character at the position
  is kept. A compiled pattern is modelled by what it does at one position: given whether
  the position is the start of the text (for \<open>^\<close>) and the text from the position on,
  it returns the length of the match that the backtracking search of \<open>re\<close> finds first.
  None of the patterns below matches the empty text, and deleting an empty match changes
  nothing, so a match of length 0 is treated as no match.
\<close>

definition newline :: codepoint where
  "newline = 10"

text \<open>
  \<open>$\<close> holds at the end of the text and just before a newline that ends the text;
  \<open>.\<close> is any character but a newline.
\<close>

definition at_end :: "pystr \<Rightarrow> bool" where
  "at_end rest \<longleftrightarrow> rest = [] \<or> rest = [newline]"

type_synonym matcher = "bool \<Rightarrow> pystr \<Rightarrow> nat option"

function re_sub_from :: "matcher \<Rightarrow> bool \<Rightarrow> pystr \<Rightarrow> pystr" where
  "re_sub_from m at_start [] = []"
| "re_sub_from m at_start (c # cs) =
     (case m at_start (c # cs) of
        None \<Rightarrow> c # re_sub_from m False cs
      | Some 0 \<Rightarrow> c # re_sub_from m False cs
      | Some (Suc n) \<Rightarrow> re_sub_from m False (drop n cs))"
  by pat_completeness auto
termination
  by (relation "measure (\<lambda>(m, b, s). length s)") auto

definition re_sub :: "matcher \<Rightarrow> pystr \<Rightarrow> pystr" where
  "re_sub m s = re_sub_from m True s"

text \<open>The character classes \<open>[0pP]\<close>, \<open>[]^\[_\\V]\<close>, \<open>[VWU]\<close>, \<open>[A@]\<close>, \<open>[ -~]\<close>,
  \<open>[^% ]\<close> and \<open>[A-Za-z0-9.]\<close>.\<close>

definition zero_p_P :: "codepoint \<Rightarrow> bool" where
  "zero_p_P c \<longleftrightarrow> c = cp CHR ''0'' \<or> c = cp CHR ''p'' \<or> c = cp CHR ''P''"

definition bracket_V :: "codepoint \<Rightarrow> bool" where
  "bracket_V c \<longleftrightarrow>
     c = cp CHR '']'' \<or> c = cp CHR ''^'' \<or> c = cp CHR ''['' \<or> c = cp CHR ''_''
     \<or> c = cp (CHR 0x5C) \<or> c = cp CHR ''V''"

definition V_W_U :: "codepoint \<Rightarrow> bool" where
  "V_W_U c \<longleftrightarrow> c = cp CHR ''V'' \<or> c = cp CHR ''W'' \<or> c = cp CHR ''U''"

definition A_or_at :: "codepoint \<Rightarrow> bool" where
  "A_or_at c \<longleftrightarrow> c = cp CHR ''A'' \<or> c = cp CHR ''@''"

definition printable :: "codepoint \<Rightarrow> bool" where
  "printable c \<longleftrightarrow> cp CHR '' '' \<le> c \<and> c \<le> cp CHR ''~''"

definition not_percent_space :: "codepoint \<Rightarrow> bool" where
  "not_percent_space c \<longleftrightarrow> c \<noteq> cp CHR ''%'' \<and> c \<noteq> cp CHR '' ''"

definition alnum_dot :: "codepoint \<Rightarrow> bool" where
  "alnum_dot c \<longleftrightarrow>
     (cp CHR ''A'' \<le> c \<and> c \<le> cp CHR ''Z'') \<or> (cp CHR ''a'' \<le> c \<and> c \<le> cp CHR ''z'')
     \<or> (cp CHR ''0'' \<le> c \<and> c \<le> cp CHR ''9'') \<or> c = cp CHR ''.''"

text \<open>
  \<open>FP_FILTER_PREFIX_1 = ^.{0,2}[0pP]?[]^\[_\\V]A\<close>. \<open>prefix_try k j s\<close>: the pattern
  matches with \<open>.{0,2}\<close> taking \<open>k\<close> characters and \<open>[0pP]?\<close> taking \<open>j\<close>. Both are
  greedy, so the search tries the larger counts first, the outer one first.
\<close>

definition prefix_try :: "nat \<Rightarrow> nat \<Rightarrow> pystr \<Rightarrow> bool" where
  "prefix_try k j s \<longleftrightarrow>
     k + j + 2 \<le> length s \<and> list_all (\<lambda>c. c \<noteq> newline) (take k s)
     \<and> (if j = 1 then zero_p_P (s ! k) else True)
     \<and> bracket_V (s ! (k + j)) \<and> s ! (k + j + 1) = cp CHR ''A''"

definition FP_FILTER_PREFIX_1 :: matcher where
  "FP_FILTER_PREFIX_1 at_start s =
     (if \<not> at_start then None
      else case find (\<lambda>(k, j). prefix_try k j s)
                  [(2, 1), (2, 0), (1, 1), (1, 0), (0, 1), (0, 0)] of
             None \<Rightarrow> None
           | Some (k, j) \<Rightarrow> Some (k + j + 2))"

text \<open>
  \<open>FP_FILTER_SUFFIX_1 = [0pP]?[VWU][A@]$|Tp$\<close>: the first alternative with the optional
  character, then without it, then the second alternative.
\<close>

definition FP_FILTER_SUFFIX_1 :: matcher where
  "FP_FILTER_SUFFIX_1 at_start s =
     (if length s \<ge> 3 \<and> zero_p_P (s ! 0) \<and> V_W_U (s ! 1) \<and> A_or_at (s ! 2) \<and> at_end (drop 3 s)
        then Some 3
      else if length s \<ge> 2 \<and> V_W_U (s ! 0) \<and> A_or_at (s ! 1) \<and> at_end (drop 2 s)
        then Some 2
      else if length s \<ge> 2 \<and> s ! 0 = cp CHR ''T'' \<and> s ! 1 = cp CHR ''p'' \<and> at_end (drop 2 s)
        then Some 2
      else None)"

text \<open>
  \<open>FP_FILTER_REP_CHARS_1 = ([ -~])\1{3,}\<close>: a printable character and all the copies
  of it that follow, when there are at least three.
\<close>

definition FP_FILTER_REP_CHARS_1 :: matcher where
  "FP_FILTER_REP_CHARS_1 at_start s =
     (case s of
        [] \<Rightarrow> None
      | c # cs \<Rightarrow>
          (let n = length (takeWhile (\<lambda>d. d = c) cs)
           in if printable c \<and> n \<ge> 3 then Some (Suc n) else None))"

text \<open>
  \<open>FP_FILTER_REP_CHARS_2 = ([^% ]{4})\1{4,}\<close>: a group of four characters and all the
  copies of the group that follow, when there are at least four. \<open>count_copies g s\<close>
  counts the copies of \<open>g\<close> at the start of \<open>s\<close>.
\<close>

function count_copies :: "pystr \<Rightarrow> pystr \<Rightarrow> nat" where
  "count_copies g s =
     (if g \<noteq> [] \<and> prefix g s then Suc (count_copies g (drop (length g) s)) else 0)"
  by pat_completeness auto
termination
  by (relation "measure (\<lambda>(g, s). length s)") (auto simp: prefix_def)

declare count_copies.simps [simp del]

definition FP_FILTER_REP_CHARS_2 :: matcher where
  "FP_FILTER_REP_CHARS_2 at_start s =
     (if length s \<ge> 4 \<and> list_all not_percent_space (take 4 s)
      then (let n = count_copies (take 4 s) (drop 4 s)
            in if n \<ge> 4 then Some (4 * Suc n) else None)
      else None)"

text \<open>
  \<open>FP_FILTER_STRICT_INCLUDE = ^\[.*?]$|%[sd]\<close> is used with \<open>re.match\<close>, which tries the
  pattern at the start of the text only. \<open>lazy_dot_rbracket_end\<close> is \<open>.*?]$\<close>: the lazy
  star first tries to end here, then takes one more character.
\<close>

fun lazy_dot_rbracket_end :: "pystr \<Rightarrow> bool" where
  "lazy_dot_rbracket_end [] = False"
| "lazy_dot_rbracket_end (c # cs) =
     ((c = cp CHR '']'' \<and> at_end cs) \<or> (c \<noteq> newline \<and> lazy_dot_rbracket_end cs))"

definition FP_FILTER_STRICT_INCLUDE_match :: "pystr \<Rightarrow> bool" where
  "FP_FILTER_STRICT_INCLUDE_match s =
     (case s of
        [] \<Rightarrow> False
      | c # cs \<Rightarrow>
          (c = cp CHR ''['' \<and> lazy_dot_rbracket_end cs)
          \<or> (c = cp CHR ''%''
              \<and> (case cs of [] \<Rightarrow> False | d # _ \<Rightarrow> d = cp CHR ''s'' \<or> d = cp CHR ''d'')))"

text \<open>\<open>FP_FILTER_STRICT_SPECIAL_CHARS = [^A-Za-z0-9.]\<close>.\<close>

definition FP_FILTER_STRICT_SPECIAL_CHARS :: matcher where
  "FP_FILTER_STRICT_SPECIAL_CHARS at_start s =
     (case s of [] \<Rightarrow> None | c # cs \<Rightarrow> if alnum_dot c then None else Some 1)"

text \<open>
  \<open>FP_FILTER_STRICT_KNOWN_FP = ^O.*A$\<close>. \<open>greedy_dot_A_end\<close> is \<open>.*A$\<close>: the greedy star
  first takes one more character, and tries \<open>A$\<close> here only when that fails.
\<close>

fun greedy_dot_A_end :: "pystr \<Rightarrow> nat option" where
  "greedy_dot_A_end [] = None"
| "greedy_dot_A_end (c # cs) =
     (case (if c \<noteq> newline then greedy_dot_A_end cs else None) of
        Some n \<Rightarrow> Some (Suc n)
      | None \<Rightarrow> if c = cp CHR ''A'' \<and> at_end cs then Some 1 else None)"

definition FP_FILTER_STRICT_KNOWN_FP :: matcher where
  "FP_FILTER_STRICT_KNOWN_FP at_start s =
     (case s of
        [] \<Rightarrow> None
      | c # cs \<Rightarrow>
          if at_start \<and> c = cp CHR ''O'' then map_option Suc (greedy_dot_A_end cs) else None)"

definition MAX_STRING_LENGTH_FILTER_STRICT :: int where
  "MAX_STRING_LENGTH_FILTER_STRICT = 6"

text \<open>
  \<open>strip_string\<close>: the first loop (lines 248 and 249) is \<open>strip_level\<close>, the second
  (lines 252 and 253) is \<open>strict_level\<close>.
\<close>

definition strip_level :: "pystr \<Rightarrow> pystr" where
  "strip_level s =
     re_sub FP_FILTER_REP_CHARS_2 (re_sub FP_FILTER_REP_CHARS_1
       (re_sub FP_FILTER_SUFFIX_1 (re_sub FP_FILTER_PREFIX_1 s)))"

definition strict_level :: "pystr \<Rightarrow> pystr" where
  "strict_level s =
     re_sub FP_FILTER_STRICT_SPECIAL_CHARS (re_sub FP_FILTER_STRICT_KNOWN_FP s)"

definition strip_string :: "pystr \<Rightarrow> pystr" where
  "strip_string s0 =
     (let s = strip_level s0
      in if py_len s \<le> MAX_STRING_LENGTH_FILTER_STRICT
         then (if \<not> FP_FILTER_STRICT_INCLUDE_match s then strict_level s else s)
         else s)"

text \<open>
  The words of the spec for the two patterns that take whole texts: a text in brackets
  (\<open>^\[.*\]$\<close>) and a text of the form \<open>O\<dots>A\<close> (\<open>^O.*A$\<close>); and a text that starts with, or
  contains, \<open>%s\<close> or \<open>%d\<close>.
\<close>

definition bracketed :: "pystr \<Rightarrow> bool" where
  "bracketed s \<longleftrightarrow>
     (\<exists>body tail. s = cp CHR ''['' # body @ cp CHR '']'' # tail
        \<and> newline \<notin> set body \<and> at_end tail)"

definition O_to_A :: "pystr \<Rightarrow> bool" where
  "O_to_A s \<longleftrightarrow>
     (\<exists>body tail. s = cp CHR ''O'' # body @ cp CHR ''A'' # tail
        \<and> newline \<notin> set body \<and> at_end tail)"

definition starts_with_format :: "pystr \<Rightarrow> bool" where
  "starts_with_format s \<longleftrightarrow> prefix (py ''%s'') s \<or> prefix (py ''%d'') s"

definition contains_format :: "pystr \<Rightarrow> bool" where
  "contains_format s \<longleftrightarrow> sublist (py ''%s'') s \<or> sublist (py ''%d'') s"

section \<open>floss/utils.py: extract_strings\<close>

definition FP_STRINGS :: "pystr list" where
  "FP_STRINGS =
     [py ''R6016'', py ''R6030'', py ''Program: '', py ''Runtime Error!'',
      py ''bad locale name'', py ''ios_base::badbit set'', py ''ios_base::eofbit set'',
      py ''ios_base::failbit set'', py ''- CRT not initialized'', py ''program name unknown>'',
      py ''<program name unknown>'', py ''- floating point not loaded'',
      py ''Program: <program name unknown>'', py ''- not enough space for thread data'',
      [32 ..< 127]]"

text \<open>
  The last entry of \<open>FP_STRINGS\<close> is the run of all printable ASCII characters, from the
  space (32) to the tilde (126) in order.

  What the sources take from modules that are not among them is a parameter of the
  model: the constant \<open>MAX_STRING_LENGTH\<close> of \<open>floss.const\<close>, the scanner
  \<open>floss.strings.extract_ascii_unicode_strings\<close>, which yields the printable runs of a
  buffer as \<open>StaticString\<close>s, the pointer size of the workspace
  (\<open>stackstrings.getPointerSize(vw)\<close>), and the run of the emulator over a function,
  which gives the contexts captured at the ends of its tight loops and the set of the
  strings seen on the stack before them (\<open>extract_tightstring_contexts\<close>).
\<close>

text \<open>
  Modelled from the spec: \<open>CallContext\<close> is defined in \<open>floss.stackstrings\<close>, which is
  not among the sources. The spec gives it the program counter, the stack pointer, the
  initial stack pointer and the bytes of the stack; the field names are the ones that
  \<open>extract_tightstrings\<close> reads.
\<close>

record CallContext =
  pc :: int
  sp :: int
  init_sp :: int
  stack_memory :: pybytes

record externals =
  MAX_STRING_LENGTH :: int
  extract_ascii_unicode_strings :: "pybytes \<Rightarrow> StaticString list"
  getPointerSize :: int
  extract_tightstring_contexts :: "int \<Rightarrow> (int \<times> int) list \<Rightarrow> CallContext list \<times> pystr set"

text \<open>
  \<open>exclude and decoded_string in exclude\<close>: \<open>None\<close> and the empty set are both false.
\<close>

definition in_exclude :: "pystr set option \<Rightarrow> pystr \<Rightarrow> bool" where
  "in_exclude exclude decoded_string =
     (case exclude of None \<Rightarrow> False | Some e \<Rightarrow> e \<noteq> {} \<and> decoded_string \<in> e)"

text \<open>
  The body of the loop of \<open>extract_strings\<close> (lines 199 to 216) for one scanned string:
  \<open>None\<close> where the body ends in \<open>continue\<close>, the string it yields otherwise.
\<close>

definition extract_strings_body ::
    "externals \<Rightarrow> int \<Rightarrow> pystr set option \<Rightarrow> StaticString \<Rightarrow> StaticString option" where
  "extract_strings_body X min_length exclude s =
     (if py_len (string s) > MAX_STRING_LENGTH X then None
      else if string s \<in> set FP_STRINGS then None
      else (let decoded_string = strip_string (string s)
            in if py_len decoded_string < min_length then None
               else if in_exclude exclude decoded_string then None
               else Some \<lparr>string = decoded_string, offset = offset s, encoding = encoding s\<rparr>))"

text \<open>
  \<open>extract_strings\<close> is a generator. This is the list of what it yields when its caller
  leaves \<open>exclude\<close> as it is while the generator runs.
\<close>

definition extract_strings ::
    "externals \<Rightarrow> pybytes \<Rightarrow> int \<Rightarrow> pystr set option \<Rightarrow> StaticString list" where
  "extract_strings X buffer min_length exclude =
     (if py_len buffer < min_length then []
      else List.map_filter (extract_strings_body X min_length exclude)
             (extract_ascii_unicode_strings X buffer))"

section \<open>floss/tightstrings.py: extract_tightstrings\<close>

text \<open>
  The caller of the generator adds each string it receives to \<open>exclude\<close> before it asks
  for the next one (line 103), and the generator holds the same set object, so the test
  of line 213 sees the strings yielded so far. The inner loop (lines 96 to 104) therefore
  threads the set through the scanned strings: it returns the tightstrings yielded and
  the set as it is at the end.
\<close>

fun tightstrings_of_scanned ::
    "externals \<Rightarrow> int \<Rightarrow> int \<Rightarrow> CallContext \<Rightarrow> pystr set \<Rightarrow> StaticString list
       \<Rightarrow> TightString list \<times> pystr set" where
  "tightstrings_of_scanned X min_length fva ctx exclude [] = ([], exclude)"
| "tightstrings_of_scanned X min_length fva ctx exclude (c # cs) =
     (case extract_strings_body X min_length (Some exclude) c of
        None \<Rightarrow> tightstrings_of_scanned X min_length fva ctx exclude cs
      | Some s \<Rightarrow>
          (let frame_offset = (init_sp ctx - sp ctx) - offset s - getPointerSize X;
               ts = \<lparr>function_va = fva, ts_string = string s, ts_encoding = encoding s,
                     program_counter = pc ctx, stack_pointer = sp ctx,
                     initial_stack_pointer = init_sp ctx, stack_offset = offset s,
                     frame_offset = frame_offset\<rparr>;
               (out, exclude') =
                 tightstrings_of_scanned X min_length fva ctx (insert (string s) exclude) cs
           in (ts # out, exclude')))"

definition tightstrings_of_context ::
    "externals \<Rightarrow> int \<Rightarrow> int \<Rightarrow> pystr set \<Rightarrow> CallContext \<Rightarrow> TightString list \<times> pystr set" where
  "tightstrings_of_context X min_length fva exclude ctx =
     (if py_len (stack_memory ctx) < min_length then ([], exclude)
      else tightstrings_of_scanned X min_length fva ctx exclude
             (extract_ascii_unicode_strings X (stack_memory ctx)))"

text \<open>The loop over the contexts of one function (line 92): one set for all of them.\<close>

fun tightstrings_of_contexts ::
    "externals \<Rightarrow> int \<Rightarrow> int \<Rightarrow> pystr set \<Rightarrow> CallContext list \<Rightarrow> TightString list \<times> pystr set" where
  "tightstrings_of_contexts X min_length fva exclude [] = ([], exclude)"
| "tightstrings_of_contexts X min_length fva exclude (ctx # ctxs) =
     (let (out1, exclude1) = tightstrings_of_context X min_length fva exclude ctx;
          (out2, exclude2) = tightstrings_of_contexts X min_length fva exclude1 ctxs
      in (out1 @ out2, exclude2))"

text \<open>
  The body of the loop over the functions (lines 89 to 104): \<open>exclude\<close> starts as
  \<open>pre_ctx_strings\<close>.
\<close>

definition tightstrings_of_function ::
    "externals \<Rightarrow> int \<Rightarrow> int \<Rightarrow> CallContext list \<times> pystr set \<Rightarrow> TightString list" where
  "tightstrings_of_function X min_length fva run =
     (case run of (ctxs, pre_ctx_strings) \<Rightarrow>
        fst (tightstrings_of_contexts X min_length fva pre_ctx_strings ctxs))"

text \<open>\<open>tightloop_functions\<close> is a dictionary: its items are pairs with distinct keys.\<close>

definition extract_tightstrings ::
    "externals \<Rightarrow> (int \<times> (int \<times> int) list) list \<Rightarrow> int \<Rightarrow> TightString list" where
  "extract_tightstrings X tightloop_functions min_length =
     concat (map (\<lambda>(fva, tloops).
                    tightstrings_of_function X min_length fva
                      (extract_tightstring_contexts X fva tloops))
                 tightloop_functions)"

section \<open>floss/language/rust/extract.py: the wide-string repair pass\<close>

text \<open>
  A result of the scanner \<open>binary2strings\<close> is a tuple of the text, the kind
  (\<open>"UTF8"\<close> or \<open>"WIDE_STRING"\<close>), the span and a flag. The scanner is an external
  library: its two functions are parameters of the model.
\<close>

type_synonym b2s_string = "pystr \<times> pystr \<times> (int \<times> int) \<times> bool"

record b2s =
  extract_all_strings :: "pybytes \<Rightarrow> int \<Rightarrow> b2s_string list"
  extract_string :: "pybytes \<Rightarrow> b2s_string"

definition b2s_text :: "b2s_string \<Rightarrow> pystr" where
  "b2s_text t = fst t"

definition b2s_kind :: "b2s_string \<Rightarrow> pystr" where
  "b2s_kind t = fst (snd t)"


datatype py_error = IndexError

text \<open>
  \<open>s.encode("utf-16le", "ignore")\<close>: a code point below \<open>0x10000\<close> is one 16-bit unit,
  low byte first; a lone surrogate cannot be encoded and is left out; a code point from
  \<open>0x10000\<close> on is a pair of surrogates.
\<close>

definition utf16le_unit :: "nat \<Rightarrow> pybytes" where
  "utf16le_unit u = [u mod 256, u div 256]"

definition utf16le_char :: "codepoint \<Rightarrow> pybytes" where
  "utf16le_char c =
     (if 0xD800 \<le> c \<and> c \<le> 0xDFFF then []
      else if c < 0x10000 then utf16le_unit c
      else utf16le_unit (0xD800 + (c - 0x10000) div 0x400)
           @ utf16le_unit (0xDC00 + (c - 0x10000) mod 0x400))"

definition encode_utf16le_ignore :: "pystr \<Rightarrow> pybytes" where
  "encode_utf16le_ignore s = concat (map utf16le_char s)"

text \<open>
  Lines 58 to 64: the buffer is scanned again one byte behind the start of the wide
  string, and the span of the result is moved to where it lies in the buffer.
\<close>

definition fixup_of :: "b2s \<Rightarrow> pybytes \<Rightarrow> int \<Rightarrow> b2s_string" where
  "fixup_of B buffer start =
     (case extract_string B (py_slice_from (start + 1) buffer) of
        (t, k, (a, e), f) \<Rightarrow> (t, k, (a + start + 1, e + start + 1), f))"

text \<open>
  The loop of \<open>fix_b2s_wide_strings\<close>, with its two variables \<open>fixed_strings\<close> and
  \<open>last_fixup\<close>. \<open>sd[0]\<close> raises \<open>IndexError\<close> when the encoded text is empty. A tuple of
  four is true in a condition, so \<open>last_fixup and \<dots>\<close> asks only whether there is one;
  \<open>s in last_fixup[0]\<close> is the substring test.
\<close>

fun fix_loop ::
    "b2s \<Rightarrow> int \<Rightarrow> pybytes \<Rightarrow> b2s_string list \<Rightarrow> b2s_string option \<Rightarrow> b2s_string list
       \<Rightarrow> py_error + b2s_string list" where
  "fix_loop B min_length buffer fixed_strings last_fixup [] = Inr fixed_strings"
| "fix_loop B min_length buffer fixed_strings last_fixup ((s, string_type, (start, end), flag) # strings) =
     (if string_type = py ''WIDE_STRING'' then
        (case encode_utf16le_ignore s of
           [] \<Rightarrow> Inl IndexError
         | b # sd \<Rightarrow>
             if b = 0 then
               (let new_fixup = fixup_of B buffer start
                in fix_loop B min_length buffer fixed_strings
                     (if py_len (b2s_text new_fixup) < min_length then None else Some new_fixup)
                     strings)
             else fix_loop B min_length buffer fixed_strings last_fixup strings)
      else
        (case last_fixup of
           None \<Rightarrow>
             fix_loop B min_length buffer
               (fixed_strings @ [(s, string_type, (start, end), flag)]) None strings
         | Some fixup \<Rightarrow>
             if sublist s (b2s_text fixup)
             then fix_loop B min_length buffer (fixed_strings @ [fixup]) None strings
             else fix_loop B min_length buffer
                    (fixed_strings @ [(s, string_type, (start, end), flag)]) None strings))"

definition fix_b2s_wide_strings ::
    "b2s \<Rightarrow> b2s_string list \<Rightarrow> int \<Rightarrow> pybytes \<Rightarrow> py_error + b2s_string list" where
  "fix_b2s_wide_strings B strings min_length buffer =
     fix_loop B min_length buffer [] None strings"

section \<open>floss/language/rust/extract.py: get_string_blob_strings\<close>

fun filter_and_transform_utf8_strings :: "b2s_string list \<Rightarrow> int \<Rightarrow> StaticString list" where
  "filter_and_transform_utf8_strings [] start_rdata = []"
| "filter_and_transform_utf8_strings ((s, string_type, (start, end), flag) # strings) start_rdata =
     (if string_type \<noteq> py ''UTF8'' then filter_and_transform_utf8_strings strings start_rdata
      else \<lparr>string = filter (\<lambda>c. c \<noteq> newline) s, offset = start + start_rdata, encoding = UTF8\<rparr>
             # filter_and_transform_utf8_strings strings start_rdata)"

text \<open>
  The PE file, as far as the function reads it. The helpers of \<open>floss.language.utils\<close>
  are not among the sources: what they return for the file is a field of the record.
  \<open>get_rdata_section\<close> either raises \<open>ValueError\<close> with a message or returns the
  section. The two machine types are those of \<open>pefile.MACHINE_TYPE\<close>.
\<close>

record SectionStructure =
  VirtualAddress :: int
  PointerToRawData :: int
  SizeOfRawData :: int
  get_data :: pybytes

record PE =
  ImageBase :: int
  Machine :: int
  get_rdata_section :: "pystr + SectionStructure"
  get_struct_string_candidates :: "int list"
  find_lea_xrefs :: "int list"
  find_push_xrefs :: "int list"
  find_mov_xrefs :: "int list"

definition IMAGE_FILE_MACHINE_I386 :: int where
  "IMAGE_FILE_MACHINE_I386 = 0x014c"

definition IMAGE_FILE_MACHINE_AMD64 :: int where
  "IMAGE_FILE_MACHINE_AMD64 = 0x8664"

text \<open>The two calls of \<open>logger.error\<close>, with the argument of each.\<close>

datatype log_record = Cannot_extract_rust_strings pystr | Unsupported_architecture int

text \<open>The loop over the xrefs (lines 267 to 273).\<close>

fun split_at_xrefs ::
    "int \<Rightarrow> SectionStructure \<Rightarrow> int \<Rightarrow> int list \<Rightarrow> StaticString list \<Rightarrow> StaticString list" where
  "split_at_xrefs image_base rdata min_length [] static_strings = static_strings"
| "split_at_xrefs image_base rdata min_length (addr # xrefs) static_strings =
     (let address = addr - image_base - VirtualAddress rdata + PointerToRawData rdata
      in if \<not> (PointerToRawData rdata \<le> address
                \<and> address < PointerToRawData rdata + SizeOfRawData rdata)
         then split_at_xrefs image_base rdata min_length xrefs static_strings
         else split_at_xrefs image_base rdata min_length xrefs
                (split_strings static_strings address min_length))"

text \<open>
  The function returns what it logged and the strings, or the exception that the repair
  pass raised.
\<close>

definition get_string_blob_strings ::
    "b2s \<Rightarrow> PE \<Rightarrow> int \<Rightarrow> py_error + (log_record list \<times> StaticString list)" where
  "get_string_blob_strings B pe min_length =
     (case get_rdata_section pe of
        Inl e \<Rightarrow> Inr ([Cannot_extract_rust_strings e], [])
      | Inr rdata_section \<Rightarrow>
          (let start_rdata = PointerToRawData rdata_section;
               buffer_rdata = get_data rdata_section;
               strings = extract_all_strings B buffer_rdata min_length
           in case fix_b2s_wide_strings B strings min_length buffer_rdata of
                Inl err \<Rightarrow> Inl err
              | Inr fixed_strings \<Rightarrow>
                  (let static_strings = filter_and_transform_utf8_strings fixed_strings start_rdata;
                       struct_string_addrs = get_struct_string_candidates pe
                   in if Machine pe = IMAGE_FILE_MACHINE_I386 then
                        Inr ([], split_at_xrefs (ImageBase pe) rdata_section min_length
                                   (struct_string_addrs @ find_lea_xrefs pe @ find_push_xrefs pe
                                      @ find_mov_xrefs pe)
                                   static_strings)
                      else if Machine pe = IMAGE_FILE_MACHINE_AMD64 then
                        Inr ([], split_at_xrefs (ImageBase pe) rdata_section min_length
                                   (struct_string_addrs @ find_lea_xrefs pe) static_strings)
                      else Inr ([Unsupported_architecture (Machine pe)], []))))"

section \<open>Properties of split_strings\<close>

lemma split_at_parts:
  assumes "inside s address"
  shows "split_at xs s address min_length =
           remove1 s (xs @ kept min_length (first_part s address)
                         @ kept min_length (second_part s address))"
  using assms
  by (simp add: split_at_def inside_def py_slice_to_def py_slice_from_def
      first_part_def second_part_def kept_def Let_def)

lemma split_loop_first_hit:
  assumes "\<forall>t \<in> set pre. \<not> inside t address" and "inside s address"
  shows "split_loop xs (pre @ s # post) address min_length
           = split_at xs s address min_length"
  using assms by (induction pre) simp_all

lemma split_loop_no_hit:
  assumes "\<forall>t \<in> set todo. \<not> inside t address"
  shows "split_loop xs todo address min_length = xs"
  using assms by (induction todo) simp_all

lemma parts_differ:
  assumes "inside s address"
  shows "first_part s address \<noteq> s" and "second_part s address \<noteq> s"
proof -
  let ?k = "nat (address - offset s)"
  from assms have k: "0 < ?k" "?k < length (string s)"
    by (auto simp: inside_def py_len_def)
  have "length (string (first_part s address)) = ?k"
    using k by (simp add: first_part_def)
  with k show "first_part s address \<noteq> s" by auto
  have "length (string (second_part s address)) = length (string s) - ?k"
    by (simp add: second_part_def)
  with k show "second_part s address \<noteq> s"
    by (metis diff_less length_greater_0_conv less_nat_zero_code list.size(3) nat_neq_iff)
qed

text \<open>
  C1. When the file offset of an xref lies strictly inside a held string, the first such
  string \<open>s\<close> in list order is taken out of the list and its two halves, cut at the
  offset, are appended: the first half at \<open>offset s\<close>, the second at the xref's offset.
  The halves concatenate back to the text of \<open>s\<close>, each is kept exactly when it has at
  least \<open>min_length\<close> characters, and \<open>s\<close> is gone from the list unless the list held a
  second copy of it.
\<close>

theorem split_strings_splits:
  assumes "\<forall>t \<in> set pre. \<not> inside t address" and "inside s address"
  shows "split_strings (pre @ s # post) address min_length
           = pre @ post @ kept min_length (first_part s address)
                        @ kept min_length (second_part s address)
         \<and> string (first_part s address) @ string (second_part s address) = string s
         \<and> offset (first_part s address) = offset s
         \<and> offset (second_part s address) = address
         \<and> (\<forall>p. (p \<in> set (kept min_length p)) = (min_length \<le> py_len (string p)))
         \<and> (s \<notin> set post \<longrightarrow> s \<notin> set (split_strings (pre @ s # post) address min_length))"
proof -
  let ?parts = "kept min_length (first_part s address) @ kept min_length (second_part s address)"
  from assms have notin: "s \<notin> set pre" by auto
  have "split_strings (pre @ s # post) address min_length
          = remove1 s ((pre @ s # post) @ ?parts)"
    using assms by (simp add: split_strings_def split_loop_first_hit split_at_parts)
  also have "\<dots> = pre @ post @ ?parts"
    using notin by (simp add: remove1_append)
  finally have res: "split_strings (pre @ s # post) address min_length = pre @ post @ ?parts" .
  have "s \<notin> set ?parts"
    using parts_differ [OF assms(2)] by (auto simp: kept_def)
  with notin res show ?thesis
    by (auto simp: first_part_def second_part_def kept_def)
qed

theorem split_strings_splits_witness:
  "split_strings [\<lparr>string = py ''abcdefgh'', offset = 0x100, encoding = UTF8\<rparr>] 0x104 4
     = [\<lparr>string = py ''abcd'', offset = 0x100, encoding = UTF8\<rparr>,
        \<lparr>string = py ''efgh'', offset = 0x104, encoding = UTF8\<rparr>]"
proof -
  let ?s = "\<lparr>string = py ''abcdefgh'', offset = 0x100, encoding = UTF8\<rparr>"
  have h1: "\<forall>t \<in> set []. \<not> inside t 0x104" by simp
  have h2: "inside ?s 0x104" by (simp add: inside_def py_len_def py_def)
  show ?thesis
    using split_strings_splits [OF h1 h2, of "[]" 4]
    by (simp add: kept_def first_part_def second_part_def py_len_def py_def)
qed

text \<open>
  C2. Splitting \<open>"abcdefgh"\<close> held at \<open>0x100\<close> at file offset \<open>0x103\<close> with
  \<open>min_length = 4\<close> leaves exactly one string: the second half \<open>"defgh"\<close> at \<open>0x103\<close>.
  The first half \<open>"abc"\<close> is dropped for being shorter than \<open>min_length\<close>.
\<close>

theorem split_below_minimum:
  "split_strings [\<lparr>string = py ''abcdefgh'', offset = 0x100, encoding = UTF8\<rparr>] 0x103 4
     = [\<lparr>string = py ''defgh'', offset = 0x103, encoding = UTF8\<rparr>]"
  by (simp add: split_strings_def inside_def split_at_def py_slice_to_def py_slice_from_def
      py_len_def py_def)

theorem split_below_minimum_counterexample:
  "split_strings [\<lparr>string = py ''abcdefgh'', offset = 0x100, encoding = UTF8\<rparr>] 0x103 4
     \<noteq> [\<lparr>string = py ''efgh'', offset = 0x103, encoding = UTF8\<rparr>]"
  by (simp add: split_strings_def inside_def split_at_def py_slice_to_def py_slice_from_def
      py_len_def py_def)

section \<open>Properties of the false-positive filter\<close>

lemma re_sub_from_subseq: "subseq (re_sub_from m b s) s"
proof (induction m b s rule: re_sub_from.induct)
  case (1 m at_start)
  show ?case by simp
next
  case (2 m at_start c cs)
  show ?case
  proof (cases "m at_start (c # cs)")
    case None
    with 2 show ?thesis by simp
  next
    case (Some k)
    show ?thesis
    proof (cases k)
      case 0
      with Some 2 show ?thesis by simp
    next
      case (Suc n)
      with Some 2 have a: "subseq (re_sub_from m False (drop n cs)) (drop n cs)" by simp
      have b: "subseq (drop n cs) cs"
        by (rule suffix_imp_subseq) (rule suffix_drop)
      have "subseq (re_sub_from m False (drop n cs)) cs"
        by (rule subseq_order.order_trans [OF a b])
      then have "subseq (re_sub_from m False (drop n cs)) (c # cs)"
        by (rule list_emb_Cons)
      with Some Suc show ?thesis by simp
    qed
  qed
qed

lemma re_sub_subseq: "subseq (re_sub m s) s"
  by (simp add: re_sub_def re_sub_from_subseq)

lemma strip_level_subseq: "subseq (strip_level s) s"
proof -
  let ?a = "re_sub FP_FILTER_PREFIX_1 s"
  let ?b = "re_sub FP_FILTER_SUFFIX_1 ?a"
  let ?c = "re_sub FP_FILTER_REP_CHARS_1 ?b"
  have "subseq ?b s"
    by (rule subseq_order.order_trans [OF re_sub_subseq re_sub_subseq])
  then have "subseq ?c s"
    by (rule subseq_order.order_trans [OF re_sub_subseq])
  then have "subseq (re_sub FP_FILTER_REP_CHARS_2 ?c) s"
    by (rule subseq_order.order_trans [OF re_sub_subseq])
  then show ?thesis by (simp only: strip_level_def)
qed

lemma strict_level_subseq: "subseq (strict_level s) s"
  unfolding strict_level_def
  by (rule subseq_order.order_trans [OF re_sub_subseq re_sub_subseq])

lemma strip_string_subseq: "subseq (strip_string s) s"
proof -
  have "subseq (strict_level (strip_level s)) s"
    by (rule subseq_order.order_trans [OF strict_level_subseq strip_level_subseq])
  then show ?thesis
    by (simp add: strip_string_def Let_def strip_level_subseq)
qed

lemma strip_string_same_or_shorter:
  "strip_string s = s \<or> length (strip_string s) < length s"
proof (cases "length (strip_string s) = length s")
  case True
  with strip_string_subseq [of s] have "strip_string s = s"
    by (rule subseq_same_length)
  then show ?thesis ..
next
  case False
  moreover have "length (strip_string s) \<le> length s"
    using strip_string_subseq [of s] by (rule list_emb_length)
  ultimately show ?thesis by simp
qed

lemma funpow_fixed: "f x = x \<Longrightarrow> (f ^^ n) x = x"
  by (induction n) simp_all

lemma strip_string_rounds:
  "length s \<le> n \<Longrightarrow> strip_string ((strip_string ^^ n) s) = (strip_string ^^ n) s"
proof (induction n arbitrary: s)
  case 0
  then have "s = []" by simp
  moreover have "strip_string [] = []"
    using strip_string_subseq [of "[]"] by simp
  ultimately show ?case by simp
next
  case (Suc n)
  show ?case
  proof (cases "strip_string s = s")
    case True
    then show ?thesis by (simp add: funpow_fixed)
  next
    case False
    with strip_string_same_or_shorter [of s] Suc.prems
    have "length (strip_string s) \<le> n" by simp
    from Suc.IH [OF this] show ?thesis by (simp add: funpow_swap1)
  qed
qed

text \<open>
  C4. One round of the filter is not always enough: the result of \<open>strip_string\<close> can
  itself carry a prefix or suffix that a second round removes. What holds is that
  \<open>strip_string s\<close> is \<open>s\<close> itself or a strictly shorter subsequence of \<open>s\<close>, so that
  filtering again and again reaches a fixed point after at most \<open>len(s)\<close> rounds.
\<close>

theorem strip_string_stabilises:
  "subseq (strip_string s) s
   \<and> (strip_string s = s \<or> length (strip_string s) < length s)
   \<and> strip_string ((strip_string ^^ length s) s) = (strip_string ^^ length s) s"
  using strip_string_subseq [of s] strip_string_same_or_shorter [of s]
    strip_string_rounds [of s "length s"]
  by simp

theorem strip_string_idempotent_counterexample:
  "strip_string (py ''abcdeTpTp'') = py ''abcdeTp''
   \<and> strip_string (strip_string (py ''abcdeTpTp'')) = py ''abcde''"
proof -
  have "strip_string (py ''abcdeTpTp'') = py ''abcdeTp''" by code_simp
  moreover have "strip_string (py ''abcdeTp'') = py ''abcde''" by code_simp
  ultimately show ?thesis by simp
qed

lemma lazy_dot_rbracket_end_iff:
  "lazy_dot_rbracket_end cs \<longleftrightarrow>
     (\<exists>body tail. cs = body @ cp CHR '']'' # tail \<and> newline \<notin> set body \<and> at_end tail)"
proof (induction cs)
  case Nil
  show ?case by simp
next
  case (Cons c cs)
  show ?case
  proof
    assume "lazy_dot_rbracket_end (c # cs)"
    then consider "c = cp CHR '']''" "at_end cs" | "c \<noteq> newline" "lazy_dot_rbracket_end cs"
      by auto
    then show "\<exists>body tail. c # cs = body @ cp CHR '']'' # tail \<and> newline \<notin> set body \<and> at_end tail"
    proof cases
      case 1
      then have "c # cs = [] @ cp CHR '']'' # cs \<and> newline \<notin> set [] \<and> at_end cs" by simp
      then show ?thesis by blast
    next
      case 2
      with Cons.IH obtain body tail where
        "cs = body @ cp CHR '']'' # tail" "newline \<notin> set body" "at_end tail" by blast
      with 2 have "c # cs = (c # body) @ cp CHR '']'' # tail \<and> newline \<notin> set (c # body) \<and> at_end tail"
        by simp
      then show ?thesis by blast
    qed
  next
    assume "\<exists>body tail. c # cs = body @ cp CHR '']'' # tail \<and> newline \<notin> set body \<and> at_end tail"
    then obtain body tail where
      eq: "c # cs = body @ cp CHR '']'' # tail" and nl: "newline \<notin> set body" and e: "at_end tail"
      by blast
    show "lazy_dot_rbracket_end (c # cs)"
    proof (cases body)
      case Nil
      with eq e show ?thesis by simp
    next
      case (Cons b body')
      with eq nl e have "c \<noteq> newline" "cs = body' @ cp CHR '']'' # tail" "newline \<notin> set body'"
        by auto
      with e Cons.IH have "lazy_dot_rbracket_end cs" by blast
      with \<open>c \<noteq> newline\<close> show ?thesis by simp
    qed
  qed
qed

lemma bracketed_iff:
  "bracketed s \<longleftrightarrow> (case s of [] \<Rightarrow> False | c # cs \<Rightarrow> c = cp CHR ''['' \<and> lazy_dot_rbracket_end cs)"
  by (cases s) (auto simp: bracketed_def lazy_dot_rbracket_end_iff)

lemma starts_with_format_iff:
  "starts_with_format s \<longleftrightarrow>
     (case s of [] \<Rightarrow> False
      | c # cs \<Rightarrow> c = cp CHR ''%''
          \<and> (case cs of [] \<Rightarrow> False | d # _ \<Rightarrow> d = cp CHR ''s'' \<or> d = cp CHR ''d''))"
  by (auto simp: starts_with_format_def py_def split: list.splits)

lemma include_match_iff:
  "FP_FILTER_STRICT_INCLUDE_match s \<longleftrightarrow> bracketed s \<or> starts_with_format s"
  by (cases s) (simp_all add: FP_FILTER_STRICT_INCLUDE_match_def bracketed_iff starts_with_format_iff)

lemma re_sub_from_special: "re_sub_from FP_FILTER_STRICT_SPECIAL_CHARS b s = filter alnum_dot s"
  by (induction s arbitrary: b) (simp_all add: FP_FILTER_STRICT_SPECIAL_CHARS_def)

lemma re_sub_from_never: "(\<And>t. m False t = None) \<Longrightarrow> re_sub_from m False s = s"
  by (induction s) simp_all

lemma greedy_dot_A_end_Some:
  "greedy_dot_A_end cs = Some n \<Longrightarrow> n \<le> length cs \<and> at_end (drop n cs)"
proof (induction cs arbitrary: n)
  case Nil
  then show ?case by simp
next
  case (Cons c cs)
  then show ?case
    by (auto split: option.splits if_splits)
qed

lemma greedy_dot_A_end_iff:
  "(greedy_dot_A_end cs \<noteq> None) \<longleftrightarrow>
     (\<exists>body tail. cs = body @ cp CHR ''A'' # tail \<and> newline \<notin> set body \<and> at_end tail)"
proof (induction cs)
  case Nil
  show ?case by simp
next
  case (Cons c cs)
  show ?case
  proof
    assume "greedy_dot_A_end (c # cs) \<noteq> None"
    then consider "c \<noteq> newline" "greedy_dot_A_end cs \<noteq> None" | "c = cp CHR ''A''" "at_end cs"
      by (auto split: option.splits if_splits)
    then show "\<exists>body tail. c # cs = body @ cp CHR ''A'' # tail \<and> newline \<notin> set body \<and> at_end tail"
    proof cases
      case 1
      with Cons.IH obtain body tail where
        "cs = body @ cp CHR ''A'' # tail" "newline \<notin> set body" "at_end tail" by blast
      with 1 have "c # cs = (c # body) @ cp CHR ''A'' # tail \<and> newline \<notin> set (c # body) \<and> at_end tail"
        by simp
      then show ?thesis by blast
    next
      case 2
      then have "c # cs = [] @ cp CHR ''A'' # cs \<and> newline \<notin> set [] \<and> at_end cs" by simp
      then show ?thesis by blast
    qed
  next
    assume "\<exists>body tail. c # cs = body @ cp CHR ''A'' # tail \<and> newline \<notin> set body \<and> at_end tail"
    then obtain body tail where
      eq: "c # cs = body @ cp CHR ''A'' # tail" and nl: "newline \<notin> set body" and e: "at_end tail"
      by blast
    show "greedy_dot_A_end (c # cs) \<noteq> None"
    proof (cases body)
      case Nil
      with eq e show ?thesis by (simp split: option.splits)
    next
      case (Cons b body')
      with eq nl e have "c \<noteq> newline" "cs = body' @ cp CHR ''A'' # tail" "newline \<notin> set body'"
        by auto
      with e Cons.IH have "greedy_dot_A_end cs \<noteq> None" by blast
      with \<open>c \<noteq> newline\<close> show ?thesis by (auto split: option.splits)
    qed
  qed
qed

lemma O_to_A_iff:
  "O_to_A s \<longleftrightarrow> (case s of [] \<Rightarrow> False | c # cs \<Rightarrow> c = cp CHR ''O'' \<and> greedy_dot_A_end cs \<noteq> None)"
proof (cases s)
  case Nil
  then show ?thesis by (simp add: O_to_A_def)
next
  case (Cons c cs)
  have "O_to_A (c # cs) \<longleftrightarrow>
          c = cp CHR ''O''
          \<and> (\<exists>body tail. cs = body @ cp CHR ''A'' # tail \<and> newline \<notin> set body \<and> at_end tail)"
    by (auto simp: O_to_A_def)
  also have "\<dots> \<longleftrightarrow> c = cp CHR ''O'' \<and> greedy_dot_A_end cs \<noteq> None"
    by (simp only: greedy_dot_A_end_iff)
  finally show ?thesis using Cons by simp
qed

lemma known_fp_not_at_start: "FP_FILTER_STRICT_KNOWN_FP False t = None"
  by (simp add: FP_FILTER_STRICT_KNOWN_FP_def split: list.splits)

lemma not_alnum_dot_newline: "\<not> alnum_dot newline"
  by (simp add: alnum_dot_def newline_def cp_def)

lemma re_sub_special: "re_sub FP_FILTER_STRICT_SPECIAL_CHARS s = filter alnum_dot s"
  by (simp only: re_sub_def re_sub_from_special)

lemma re_sub_known_fp:
  "(O_to_A s \<longrightarrow> at_end (re_sub FP_FILTER_STRICT_KNOWN_FP s))
   \<and> (\<not> O_to_A s \<longrightarrow> re_sub FP_FILTER_STRICT_KNOWN_FP s = s)"
proof (cases s)
  case Nil
  then show ?thesis by (simp add: re_sub_def O_to_A_iff)
next
  case (Cons c cs)
  have rest: "re_sub_from FP_FILTER_STRICT_KNOWN_FP False t = t" for t
    by (rule re_sub_from_never) (rule known_fp_not_at_start)
  show ?thesis
  proof (cases "c = cp CHR ''O'' \<and> greedy_dot_A_end cs \<noteq> None")
    case True
    then obtain n where n: "greedy_dot_A_end cs = Some n" by auto
    from greedy_dot_A_end_Some [OF n] have e: "at_end (drop n cs)" by simp
    have m: "FP_FILTER_STRICT_KNOWN_FP True (c # cs) = Some (Suc n)"
      using True n by (simp add: FP_FILTER_STRICT_KNOWN_FP_def)
    have r: "re_sub FP_FILTER_STRICT_KNOWN_FP (c # cs) = drop n cs"
      by (simp add: re_sub_def m rest)
    have o: "O_to_A (c # cs)" using True by (simp add: O_to_A_iff)
    from r o e Cons show ?thesis by simp
  next
    case False
    then have m: "FP_FILTER_STRICT_KNOWN_FP True (c # cs) = None"
      by (auto simp: FP_FILTER_STRICT_KNOWN_FP_def)
    have "re_sub FP_FILTER_STRICT_KNOWN_FP (c # cs) = c # cs"
      by (simp add: re_sub_def m rest)
    moreover have "\<not> O_to_A (c # cs)" using False by (simp add: O_to_A_iff)
    ultimately show ?thesis using Cons by simp
  qed
qed

lemma strict_level_eq:
  "strict_level s = (if O_to_A s then [] else filter alnum_dot s)"
proof (cases "O_to_A s")
  case True
  with re_sub_known_fp [of s] have "at_end (re_sub FP_FILTER_STRICT_KNOWN_FP s)" by simp
  then have "filter alnum_dot (re_sub FP_FILTER_STRICT_KNOWN_FP s) = []"
    using not_alnum_dot_newline by (auto simp: at_end_def)
  with True show ?thesis by (simp add: strict_level_def re_sub_special)
next
  case False
  with re_sub_known_fp [of s] show ?thesis by (simp add: strict_level_def re_sub_special)
qed

text \<open>
  C5. After the strip level, the strict level is applied exactly when the text has at
  most 6 characters, is not a text in brackets and does not start with \<open>%s\<close> or \<open>%d\<close>
  (\<open>re.match\<close> tries the pattern at the start of the text only); otherwise the text is
  returned as the strip level left it. The strict level empties a text of the form
  \<open>O\<dots>A\<close> and removes every character outside \<open>[A-Za-z0-9.]\<close> from any other.
\<close>

theorem strict_level_applies:
  "(py_len (strip_level s) \<le> 6 \<and> \<not> bracketed (strip_level s)
      \<and> \<not> starts_with_format (strip_level s)
      \<longrightarrow> strip_string s = strict_level (strip_level s))
   \<and> (py_len (strip_level s) > 6 \<or> bracketed (strip_level s)
      \<or> starts_with_format (strip_level s)
      \<longrightarrow> strip_string s = strip_level s)
   \<and> strict_level (strip_level s)
        = (if O_to_A (strip_level s) then [] else filter alnum_dot (strip_level s))"
  by (auto simp: strip_string_def Let_def include_match_iff MAX_STRING_LENGTH_FILTER_STRICT_def
      strict_level_eq)

theorem strict_level_applies_witness:
  "strip_string (py ''%d!'') = py ''%d!'' \<and> strip_string (py ''[a b]'') = py ''[a b]''
   \<and> strip_string (py ''a b!'') = py ''ab'' \<and> strip_string (py ''hello, world'') = py ''hello, world''"
proof -
  have l1: "strip_level (py ''%d!'') = py ''%d!''" by code_simp
  have l2: "strip_level (py ''[a b]'') = py ''[a b]''" by code_simp
  have l3: "strip_level (py ''a b!'') = py ''a b!''" by code_simp
  have l4: "strip_level (py ''hello, world'') = py ''hello, world''" by code_simp
  have h1: "starts_with_format (py ''%d!'')" by code_simp
  have h2: "bracketed (py ''[a b]'')" by (simp add: bracketed_iff py_def at_end_def newline_def cp_def)
  have h3: "\<not> bracketed (py ''a b!'')" by (simp add: bracketed_iff py_def cp_def)
  have h3': "\<not> starts_with_format (py ''a b!'')" by code_simp
  have h3'': "\<not> O_to_A (py ''a b!'')" by (simp add: O_to_A_iff py_def cp_def)
  have f3: "filter alnum_dot (py ''a b!'') = py ''ab''" by code_simp
  have n1: "py_len (py ''%d!'') = 3" "py_len (py ''[a b]'') = 5" "py_len (py ''a b!'') = 4"
    "py_len (py ''hello, world'') = 12"
    by (simp_all add: py_len_def py_def)
  show ?thesis
    using strict_level_applies [of "py ''%d!''"] strict_level_applies [of "py ''[a b]''"]
      strict_level_applies [of "py ''a b!''"] strict_level_applies [of "py ''hello, world''"]
    by (simp add: l1 l2 l3 l4 h1 h2 h3 h3' h3'' f3 n1)
qed

theorem strict_level_applies_counterexample:
  "py_len (strip_level (py ''a%s'')) \<le> 6 \<and> contains_format (py ''a%s'')
   \<and> strip_level (py ''a%s'') = py ''a%s'' \<and> strip_string (py ''a%s'') = py ''as''"
proof -
  have "strip_level (py ''a%s'') = py ''a%s''" by code_simp
  moreover have "contains_format (py ''a%s'')" by code_simp
  moreover have "strip_string (py ''a%s'') = py ''as''" by code_simp
  moreover have "py_len (py ''a%s'') \<le> 6" by (simp add: py_len_def py_def)
  ultimately show ?thesis by simp
qed

section \<open>Properties of extract_strings and extract_tightstrings\<close>

lemma extract_strings_body_Some:
  assumes "extract_strings_body X min_length exclude c = Some e"
  shows "py_len (string c) \<le> MAX_STRING_LENGTH X \<and> string c \<notin> set FP_STRINGS
         \<and> min_length \<le> py_len (strip_string (string c))
         \<and> \<not> in_exclude exclude (strip_string (string c))
         \<and> e = \<lparr>string = strip_string (string c), offset = offset c, encoding = encoding c\<rparr>"
  using assms by (auto simp: extract_strings_body_def Let_def split: if_splits)

lemma extract_strings_from_scan:
  assumes "e \<in> set (extract_strings X buffer min_length exclude)"
  shows "\<exists>c \<in> set (extract_ascii_unicode_strings X buffer).
           extract_strings_body X min_length exclude c = Some e"
  using assms by (auto simp: extract_strings_def map_filter_def split: if_splits)

lemma body_not_excluded:
  assumes "extract_strings_body X min_length (Some exclude) c = Some s"
  shows "string s \<notin> exclude"
  using extract_strings_body_Some [OF assms] by (auto simp: in_exclude_def)

lemma tightstrings_of_scanned_inv:
  assumes "tightstrings_of_scanned X min_length fva ctx exclude cs = (out, exclude')"
  shows "exclude' = exclude \<union> ts_string ` set out
         \<and> (\<forall>t \<in> set out. ts_string t \<notin> exclude) \<and> distinct (map ts_string out)"
  using assms
proof (induction cs arbitrary: exclude out exclude')
  case Nil
  then show ?case by simp
next
  case (Cons c cs)
  show ?case
  proof (cases "extract_strings_body X min_length (Some exclude) c")
    case None
    with Cons show ?thesis by simp
  next
    case (Some s)
    obtain out2 ex2 where
      rec: "tightstrings_of_scanned X min_length fva ctx (insert (string s) exclude) cs = (out2, ex2)"
      by (cases "tightstrings_of_scanned X min_length fva ctx (insert (string s) exclude) cs")
    from Cons.IH [OF rec] have ih:
      "ex2 = insert (string s) exclude \<union> ts_string ` set out2"
      "\<forall>t \<in> set out2. ts_string t \<notin> insert (string s) exclude"
      "distinct (map ts_string out2)" by simp_all
    from Cons.prems Some rec obtain t where
      out: "out = t # out2" and ex: "exclude' = ex2" and t: "ts_string t = string s"
      by (auto simp: Let_def)
    have fresh: "string s \<notin> exclude" using Some by (rule body_not_excluded)
    from ih(2) have "string s \<notin> ts_string ` set out2" by auto
    with out ex t ih fresh show ?thesis by auto
  qed
qed

lemma tightstrings_of_context_inv:
  assumes "tightstrings_of_context X min_length fva exclude ctx = (out, exclude')"
  shows "exclude' = exclude \<union> ts_string ` set out
         \<and> (\<forall>t \<in> set out. ts_string t \<notin> exclude) \<and> distinct (map ts_string out)"
proof (cases "py_len (stack_memory ctx) < min_length")
  case True
  with assms show ?thesis by (simp add: tightstrings_of_context_def)
next
  case False
  with assms have
    "tightstrings_of_scanned X min_length fva ctx exclude
       (extract_ascii_unicode_strings X (stack_memory ctx)) = (out, exclude')"
    by (simp add: tightstrings_of_context_def)
  then show ?thesis by (rule tightstrings_of_scanned_inv)
qed

lemma tightstrings_of_contexts_inv:
  assumes "tightstrings_of_contexts X min_length fva exclude ctxs = (out, exclude')"
  shows "exclude' = exclude \<union> ts_string ` set out
         \<and> (\<forall>t \<in> set out. ts_string t \<notin> exclude) \<and> distinct (map ts_string out)"
  using assms
proof (induction ctxs arbitrary: exclude out exclude')
  case Nil
  then show ?case by simp
next
  case (Cons ctx ctxs)
  obtain out1 ex1 where
    one: "tightstrings_of_context X min_length fva exclude ctx = (out1, ex1)"
    by (cases "tightstrings_of_context X min_length fva exclude ctx")
  obtain out2 ex2 where
    rec: "tightstrings_of_contexts X min_length fva ex1 ctxs = (out2, ex2)"
    by (cases "tightstrings_of_contexts X min_length fva ex1 ctxs")
  from tightstrings_of_context_inv [OF one] have a:
    "ex1 = exclude \<union> ts_string ` set out1" "\<forall>t \<in> set out1. ts_string t \<notin> exclude"
    "distinct (map ts_string out1)" by simp_all
  from Cons.IH [OF rec] have b:
    "ex2 = ex1 \<union> ts_string ` set out2" "\<forall>t \<in> set out2. ts_string t \<notin> ex1"
    "distinct (map ts_string out2)" by simp_all
  from Cons.prems one rec have out: "out = out1 @ out2" and ex: "exclude' = ex2" by simp_all
  have sep: "ts_string t \<notin> exclude \<and> ts_string t \<notin> ts_string ` set out1"
    if "t \<in> set out2" for t
  proof -
    from that b(2) have "ts_string t \<notin> ex1" by simp
    with a(1) show ?thesis by simp
  qed
  have disj: "ts_string ` set out1 \<inter> ts_string ` set out2 = {}"
  proof (rule ccontr)
    assume "ts_string ` set out1 \<inter> ts_string ` set out2 \<noteq> {}"
    then obtain x where x1: "x \<in> ts_string ` set out1" and x2: "x \<in> ts_string ` set out2"
      by auto
    from x2 obtain t where "t \<in> set out2" "x = ts_string t" by auto
    with sep [of t] x1 show False by simp
  qed
  have d: "distinct (map ts_string (out1 @ out2))"
    using a(3) b(3) disj by simp
  have f: "\<forall>t \<in> set (out1 @ out2). ts_string t \<notin> exclude"
    using a(2) sep by auto
  have e: "ex2 = exclude \<union> ts_string ` set (out1 @ out2)"
    using a(1) b(1) by auto
  from d f e out ex show ?case by simp
qed

text \<open>
  C3. No tightstring yielded for a function carries a string of the set
  \<open>pre_ctx_strings\<close> that the emulator run of the function returned, and no two
  tightstrings yielded for the function carry the same string: each yielded string joins
  the exclusion set before the next candidate is tested, in this context and in the
  later ones.
\<close>

theorem tightstrings_fresh_and_distinct:
  "(\<forall>t \<in> set (tightstrings_of_function X min_length fva (ctxs, pre_ctx_strings)).
       ts_string t \<notin> pre_ctx_strings)
   \<and> distinct (map ts_string (tightstrings_of_function X min_length fva (ctxs, pre_ctx_strings)))"
proof -
  obtain out ex where
    r: "tightstrings_of_contexts X min_length fva pre_ctx_strings ctxs = (out, ex)"
    by (cases "tightstrings_of_contexts X min_length fva pre_ctx_strings ctxs")
  from tightstrings_of_contexts_inv [OF r] r show ?thesis
    by (simp add: tightstrings_of_function_def)
qed


theorem tightstrings_fresh_and_distinct_witness:
  "map ts_string
     (tightstrings_of_function
        \<lparr>MAX_STRING_LENGTH = 2048,
         extract_ascii_unicode_strings = (\<lambda>b.
            [\<lparr>string = py ''SECRET'', offset = 0, encoding = ASCII\<rparr>,
             \<lparr>string = py ''PASS'', offset = 8, encoding = ASCII\<rparr>,
             \<lparr>string = py ''PASS'', offset = 16, encoding = ASCII\<rparr>]),
         getPointerSize = 4,
         extract_tightstring_contexts = (\<lambda>fva tloops. ([], {}))\<rparr>
        4 0x401000
        ([\<lparr>pc = 0x401020, sp = 0x1000, init_sp = 0x1040, stack_memory = replicate 64 0\<rparr>],
         {py ''SECRET''}))
     = [py ''PASS'']
   \<and> py ''PASS'' \<notin> {py ''SECRET''} \<and> distinct [py ''PASS'']"
proof -
  let ?X = "\<lparr>MAX_STRING_LENGTH = 2048,
         extract_ascii_unicode_strings = (\<lambda>b.
            [\<lparr>string = py ''SECRET'', offset = 0, encoding = ASCII\<rparr>,
             \<lparr>string = py ''PASS'', offset = 8, encoding = ASCII\<rparr>,
             \<lparr>string = py ''PASS'', offset = 16, encoding = ASCII\<rparr>]),
         getPointerSize = 4,
         extract_tightstring_contexts = (\<lambda>fva tloops. ([], {}))\<rparr>"
  let ?ctxs = "[\<lparr>pc = 0x401020, sp = 0x1000, init_sp = 0x1040, stack_memory = replicate 64 0\<rparr>]"
  have ev: "map ts_string (tightstrings_of_function ?X 4 0x401000 (?ctxs, {py ''SECRET''}))
              = [py ''PASS'']"
    by code_simp
  have ne: "py ''PASS'' \<notin> {py ''SECRET''}" by (simp add: py_def)
  from tightstrings_fresh_and_distinct
      [where X = ?X and min_length = 4 and fva = "0x401000" and ctxs = ?ctxs
         and pre_ctx_strings = "{py ''SECRET''}"]
  have "distinct (map ts_string (tightstrings_of_function ?X 4 0x401000 (?ctxs, {py ''SECRET''})))"
    by (rule conjunct2)
  then have d: "distinct [py ''PASS'']" by (simp only: ev)
  show ?thesis by (rule conjI [OF ev conjI [OF ne d]])
qed

text \<open>
  C9. A scanned string longer than \<open>MAX_STRING_LENGTH\<close> is skipped before the filter is
  applied: every string that \<open>extract_strings\<close> yields is the filtered text of a scanned
  string of at most \<open>MAX_STRING_LENGTH\<close> characters.
\<close>

theorem extract_strings_max_length:
  "(py_len (string c) > MAX_STRING_LENGTH X \<longrightarrow> extract_strings_body X min_length exclude c = None)
   \<and> (\<forall>e \<in> set (extract_strings X buffer min_length exclude).
         \<exists>c \<in> set (extract_ascii_unicode_strings X buffer).
           py_len (string c) \<le> MAX_STRING_LENGTH X
           \<and> e = \<lparr>string = strip_string (string c), offset = offset c, encoding = encoding c\<rparr>)"
proof (intro conjI impI ballI)
  assume "py_len (string c) > MAX_STRING_LENGTH X"
  then show "extract_strings_body X min_length exclude c = None"
    by (simp add: extract_strings_body_def)
next
  fix e assume "e \<in> set (extract_strings X buffer min_length exclude)"
  from extract_strings_from_scan [OF this] obtain c where
    c: "c \<in> set (extract_ascii_unicode_strings X buffer)"
    and b: "extract_strings_body X min_length exclude c = Some e" by blast
  from extract_strings_body_Some [OF b] c
  show "\<exists>c \<in> set (extract_ascii_unicode_strings X buffer).
           py_len (string c) \<le> MAX_STRING_LENGTH X
           \<and> e = \<lparr>string = strip_string (string c), offset = offset c, encoding = encoding c\<rparr>"
    by blast
qed

theorem extract_strings_max_length_witness:
  "extract_strings_body
     \<lparr>MAX_STRING_LENGTH = 8, extract_ascii_unicode_strings = (\<lambda>b. []), getPointerSize = 4,
      extract_tightstring_contexts = (\<lambda>fva tloops. ([], {}))\<rparr>
     4 None \<lparr>string = py ''helloworld'', offset = 0, encoding = ASCII\<rparr> = None
   \<and> extract_strings
     \<lparr>MAX_STRING_LENGTH = 8,
      extract_ascii_unicode_strings = (\<lambda>b.
        [\<lparr>string = py ''helloworld'', offset = 0, encoding = ASCII\<rparr>,
         \<lparr>string = py ''hello'', offset = 16, encoding = ASCII\<rparr>]),
      getPointerSize = 4,
      extract_tightstring_contexts = (\<lambda>fva tloops. ([], {}))\<rparr>
     (replicate 32 0) 4 None
     = [\<lparr>string = py ''hello'', offset = 16, encoding = ASCII\<rparr>]"
proof -
  let ?X = "\<lparr>MAX_STRING_LENGTH = 8, extract_ascii_unicode_strings = (\<lambda>b. []), getPointerSize = 4,
      extract_tightstring_contexts = (\<lambda>fva tloops. ([], {}))\<rparr>"
  let ?c = "\<lparr>string = py ''helloworld'', offset = 0, encoding = ASCII\<rparr>"
  have long: "py_len (string ?c) > MAX_STRING_LENGTH ?X"
    by (simp add: py_len_def py_def)
  have a: "extract_strings_body ?X 4 None ?c = None"
    using extract_strings_max_length
        [where c = ?c and X = ?X and min_length = 4 and exclude = None] long
    by blast
  have b: "extract_strings
     \<lparr>MAX_STRING_LENGTH = 8,
      extract_ascii_unicode_strings = (\<lambda>b.
        [\<lparr>string = py ''helloworld'', offset = 0, encoding = ASCII\<rparr>,
         \<lparr>string = py ''hello'', offset = 16, encoding = ASCII\<rparr>]),
      getPointerSize = 4,
      extract_tightstring_contexts = (\<lambda>fva tloops. ([], {}))\<rparr>
     (replicate 32 0) 4 None
     = [\<lparr>string = py ''hello'', offset = 16, encoding = ASCII\<rparr>]"
    by code_simp
  from a b show ?thesis by simp
qed

text \<open>
  C6. A scanned string is rejected when its raw text, as scanned and before the filter,
  is in the blocklist \<open>FP_STRINGS\<close>, or when its filtered text is shorter than
  \<open>min_length\<close>: every string yielded comes from a scanned string that passes both
  tests. In particular \<open>"Runtime Error!"\<close> with \<open>min_length = 4\<close> is rejected.
\<close>

theorem extract_strings_rejects:
  "(string c \<in> set FP_STRINGS \<or> py_len (strip_string (string c)) < min_length
      \<longrightarrow> extract_strings_body X min_length exclude c = None)
   \<and> (\<forall>e \<in> set (extract_strings X buffer min_length exclude).
         \<exists>c \<in> set (extract_ascii_unicode_strings X buffer).
           string c \<notin> set FP_STRINGS \<and> min_length \<le> py_len (strip_string (string c))
           \<and> e = \<lparr>string = strip_string (string c), offset = offset c, encoding = encoding c\<rparr>)
   \<and> extract_strings_body X 4 exclude \<lparr>string = py ''Runtime Error!'', offset = off, encoding = enc\<rparr>
       = None"
proof (intro conjI impI ballI)
  assume "string c \<in> set FP_STRINGS \<or> py_len (strip_string (string c)) < min_length"
  then show "extract_strings_body X min_length exclude c = None"
    by (auto simp: extract_strings_body_def Let_def)
next
  fix e assume "e \<in> set (extract_strings X buffer min_length exclude)"
  from extract_strings_from_scan [OF this] obtain c where
    c: "c \<in> set (extract_ascii_unicode_strings X buffer)"
    and b: "extract_strings_body X min_length exclude c = Some e" by blast
  from extract_strings_body_Some [OF b] c
  show "\<exists>c \<in> set (extract_ascii_unicode_strings X buffer).
           string c \<notin> set FP_STRINGS \<and> min_length \<le> py_len (strip_string (string c))
           \<and> e = \<lparr>string = strip_string (string c), offset = offset c, encoding = encoding c\<rparr>"
    by blast
next
  have "py ''Runtime Error!'' \<in> set FP_STRINGS" by (simp add: FP_STRINGS_def)
  then show "extract_strings_body X 4 exclude
               \<lparr>string = py ''Runtime Error!'', offset = off, encoding = enc\<rparr> = None"
    by (simp add: extract_strings_body_def)
qed

theorem extract_strings_rejects_witness:
  "extract_strings
     \<lparr>MAX_STRING_LENGTH = 2048,
      extract_ascii_unicode_strings = (\<lambda>b.
        [\<lparr>string = py ''Runtime Error!'', offset = 0, encoding = ASCII\<rparr>,
         \<lparr>string = py ''a b!'', offset = 16, encoding = ASCII\<rparr>,
         \<lparr>string = py ''hello'', offset = 24, encoding = ASCII\<rparr>]),
      getPointerSize = 4,
      extract_tightstring_contexts = (\<lambda>fva tloops. ([], {}))\<rparr>
     (replicate 32 0) 4 None
     = [\<lparr>string = py ''hello'', offset = 24, encoding = ASCII\<rparr>]
   \<and> extract_strings_body
       \<lparr>MAX_STRING_LENGTH = 2048, extract_ascii_unicode_strings = (\<lambda>b. []), getPointerSize = 4,
        extract_tightstring_contexts = (\<lambda>fva tloops. ([], {}))\<rparr>
       4 None \<lparr>string = py ''a b!'', offset = 16, encoding = ASCII\<rparr> = None"
proof -
  let ?X = "\<lparr>MAX_STRING_LENGTH = 2048, extract_ascii_unicode_strings = (\<lambda>b. []), getPointerSize = 4,
        extract_tightstring_contexts = (\<lambda>fva tloops. ([], {}))\<rparr>"
  let ?c = "\<lparr>string = py ''a b!'', offset = 16, encoding = ASCII\<rparr>"
  have s: "strip_string (py ''a b!'') = py ''ab''" by code_simp
  have short: "py_len (strip_string (string ?c)) < 4"
    by (simp add: s) (simp add: py_len_def py_def)
  have a: "extract_strings_body ?X 4 None ?c = None"
    using extract_strings_rejects
        [where c = ?c and X = ?X and min_length = 4 and exclude = None] short
    by blast
  have b: "extract_strings
     \<lparr>MAX_STRING_LENGTH = 2048,
      extract_ascii_unicode_strings = (\<lambda>b.
        [\<lparr>string = py ''Runtime Error!'', offset = 0, encoding = ASCII\<rparr>,
         \<lparr>string = py ''a b!'', offset = 16, encoding = ASCII\<rparr>,
         \<lparr>string = py ''hello'', offset = 24, encoding = ASCII\<rparr>]),
      getPointerSize = 4,
      extract_tightstring_contexts = (\<lambda>fva tloops. ([], {}))\<rparr>
     (replicate 32 0) 4 None
     = [\<lparr>string = py ''hello'', offset = 24, encoding = ASCII\<rparr>]"
    by code_simp
  from a b show ?thesis by simp
qed

theorem extract_strings_rejects_counterexample:
  "strip_string (py ''pVARuntime Error!'') = py ''Runtime Error!''
   \<and> py ''Runtime Error!'' \<in> set FP_STRINGS
   \<and> extract_strings
       \<lparr>MAX_STRING_LENGTH = 2048,
        extract_ascii_unicode_strings = (\<lambda>b.
          [\<lparr>string = py ''pVARuntime Error!'', offset = 0, encoding = ASCII\<rparr>]),
        getPointerSize = 4,
        extract_tightstring_contexts = (\<lambda>fva tloops. ([], {}))\<rparr>
       (replicate 32 0) 4 None
     = [\<lparr>string = py ''Runtime Error!'', offset = 0, encoding = ASCII\<rparr>]"
proof -
  have a: "strip_string (py ''pVARuntime Error!'') = py ''Runtime Error!''" by code_simp
  have b: "py ''Runtime Error!'' \<in> set FP_STRINGS" by (simp add: FP_STRINGS_def)
  have c: "extract_strings
       \<lparr>MAX_STRING_LENGTH = 2048,
        extract_ascii_unicode_strings = (\<lambda>b.
          [\<lparr>string = py ''pVARuntime Error!'', offset = 0, encoding = ASCII\<rparr>]),
        getPointerSize = 4,
        extract_tightstring_contexts = (\<lambda>fva tloops. ([], {}))\<rparr>
       (replicate 32 0) 4 None
     = [\<lparr>string = py ''Runtime Error!'', offset = 0, encoding = ASCII\<rparr>]"
    by code_simp
  from a b c show ?thesis by simp
qed

section \<open>Properties of the wide-string repair pass and of the blob engine\<close>

lemma kinds_differ: "py ''UTF8'' \<noteq> py ''WIDE_STRING''"
  by (simp add: py_def)

text \<open>
  C7. Given the scanner results \<open>[(w, WIDE_STRING, (0,6), true), ("oo", UTF8, (1,3), true)]\<close>
  where the UTF-16LE encoding of \<open>w\<close> starts with a zero byte and the scan of
  the buffer from offset 1 returns \<open>("foo", UTF8, (0,3), true)\<close>, the repair pass with
  \<open>min_length = 2\<close> returns exactly \<open>[("foo", UTF8, (1,4), true)]\<close>: the fixup takes the
  place of the result that follows, whose text is a substring of the fixup's text.
  Here \<open>w\<close> cannot be \<open>"foo"\<close> itself, whose encoding starts with the byte \<open>0x66\<close>.
\<close>

theorem wide_fixup_replaces:
  assumes "encode_utf16le_ignore w = 0 # sd"
    and "extract_string B (py_slice_from 1 buffer) = (py ''foo'', py ''UTF8'', (0, 3), True)"
  shows "fix_b2s_wide_strings B
           [(w, py ''WIDE_STRING'', (0, 6), True), (py ''oo'', py ''UTF8'', (1, 3), True)]
           2 buffer
         = Inr [(py ''foo'', py ''UTF8'', (1, 4), True)]"
proof -
  have fx: "fixup_of B buffer 0 = (py ''foo'', py ''UTF8'', (1, 4), True)"
    using assms(2) by (simp add: fixup_of_def)
  have len: "\<not> py_len (py ''foo'') < 2" by (simp add: py_len_def py_def)
  have sub: "sublist (py ''oo'') (py ''foo'')" by code_simp
  show ?thesis
    using assms(1) kinds_differ
    by (simp add: fix_b2s_wide_strings_def fx len sub b2s_text_def)
qed

theorem wide_fixup_replaces_witness:
  "fix_b2s_wide_strings
     \<lparr>extract_all_strings = (\<lambda>b n. []),
      extract_string = (\<lambda>b. if b = [0x66, 0x6F, 0x6F, 0, 0]
                             then (py ''foo'', py ''UTF8'', (0, 3), True)
                             else ([], [], (0, 0), False))\<rparr>
     [([0x6600, 0x6F6F], py ''WIDE_STRING'', (0, 6), True), (py ''oo'', py ''UTF8'', (1, 3), True)]
     2 [0, 0x66, 0x6F, 0x6F, 0, 0]
   = Inr [(py ''foo'', py ''UTF8'', (1, 4), True)]"
proof -
  let ?B = "\<lparr>extract_all_strings = (\<lambda>b n. []),
      extract_string = (\<lambda>b. if b = [0x66, 0x6F, 0x6F, 0, 0]
                             then (py ''foo'', py ''UTF8'', (0, 3), True)
                             else ([], [], (0, 0), False))\<rparr>"
  have enc: "encode_utf16le_ignore [0x6600, 0x6F6F] = 0 # [0x66, 0x6F, 0x6F]"
    by (simp add: encode_utf16le_ignore_def utf16le_char_def utf16le_unit_def)
  have scan: "extract_string ?B (py_slice_from 1 [0, 0x66, 0x6F, 0x6F, 0, 0])
                = (py ''foo'', py ''UTF8'', (0, 3), True)"
    by (simp add: py_slice_from_def)
  show ?thesis by (rule wide_fixup_replaces [OF enc scan])
qed

theorem wide_fixup_foo_counterexample:
  "fix_b2s_wide_strings
     \<lparr>extract_all_strings = (\<lambda>b n. []),
      extract_string = (\<lambda>b. (py ''foo'', py ''UTF8'', (0, 3), True))\<rparr>
     [(py ''foo'', py ''WIDE_STRING'', (0, 6), True), (py ''oo'', py ''UTF8'', (1, 3), True)]
     2 [0x66, 0, 0x6F, 0, 0x6F, 0]
   = Inr [(py ''oo'', py ''UTF8'', (1, 3), True)]
   \<and> encode_utf16le_ignore (py ''foo'') = [0x66, 0, 0x6F, 0, 0x6F, 0]"
proof -
  have enc: "encode_utf16le_ignore (py ''foo'') = [0x66, 0, 0x6F, 0, 0x6F, 0]"
    by (simp add: encode_utf16le_ignore_def utf16le_char_def utf16le_unit_def py_def cp_def)
  show ?thesis
    using kinds_differ by (simp add: fix_b2s_wide_strings_def enc)
qed


lemma fix_loop_total:
  assumes "\<forall>t \<in> set todo. b2s_kind t = py ''WIDE_STRING'' \<longrightarrow> encode_utf16le_ignore (b2s_text t) \<noteq> []"
  shows "\<exists>out. fix_loop B m buf fs lf todo = Inr out"
  using assms
proof (induction todo arbitrary: fs lf)
  case Nil
  show ?case by simp
next
  case (Cons x todo)
  note IH = Cons.IH
  obtain s k st en fl where x: "x = (s, k, (st, en), fl)"
    by (metis prod.exhaust)
  from Cons.prems have rest:
    "\<forall>t \<in> set todo. b2s_kind t = py ''WIDE_STRING'' \<longrightarrow> encode_utf16le_ignore (b2s_text t) \<noteq> []"
    by simp
  from Cons.prems have hd: "k = py ''WIDE_STRING'' \<longrightarrow> encode_utf16le_ignore s \<noteq> []"
    by (simp add: x b2s_kind_def b2s_text_def)
  show ?case
  proof (cases "k = py ''WIDE_STRING''")
    case True
    with hd obtain b sd where e: "encode_utf16le_ignore s = b # sd"
      by (cases "encode_utf16le_ignore s") auto
    show ?thesis
      using True e IH [OF rest] by (simp add: x Let_def)
  next
    case False
    show ?thesis
      using False IH [OF rest] by (cases lf) (simp_all add: x)
  qed
qed





text \<open>
  C8. When the read-only data section cannot be resolved, \<open>get_string_blob_strings\<close>
  logs the error and returns the empty list, without raising. The test of the machine
  type comes after the scan and the repair pass: when the machine type is neither
  \<open>IMAGE_FILE_MACHINE_I386\<close> nor \<open>IMAGE_FILE_MACHINE_AMD64\<close> and the repair pass returns,
  the function logs the machine type and returns the empty list; the repair pass returns
  whenever every \<open>WIDE_STRING\<close> text of the scanner has a non-empty UTF-16LE encoding.
  An exception of the repair pass is not caught, whatever the machine type is.
\<close>

theorem blob_strings_swallows:
  "(get_rdata_section pe = Inl e
      \<longrightarrow> get_string_blob_strings B pe min_length = Inr ([Cannot_extract_rust_strings e], []))
   \<and> (get_rdata_section pe = Inr rdata
       \<and> Machine pe \<noteq> IMAGE_FILE_MACHINE_I386 \<and> Machine pe \<noteq> IMAGE_FILE_MACHINE_AMD64
       \<and> (\<forall>t \<in> set (extract_all_strings B (get_data rdata) min_length).
             b2s_kind t = py ''WIDE_STRING'' \<longrightarrow> encode_utf16le_ignore (b2s_text t) \<noteq> [])
      \<longrightarrow> get_string_blob_strings B pe min_length
            = Inr ([Unsupported_architecture (Machine pe)], []))
   \<and> (get_rdata_section pe = Inr rdata
       \<and> fix_b2s_wide_strings B (extract_all_strings B (get_data rdata) min_length) min_length
             (get_data rdata) = Inl err
      \<longrightarrow> get_string_blob_strings B pe min_length = Inl err)"
proof (intro conjI impI)
  assume "get_rdata_section pe = Inl e"
  then show "get_string_blob_strings B pe min_length = Inr ([Cannot_extract_rust_strings e], [])"
    by (simp add: get_string_blob_strings_def)
next
  assume a: "get_rdata_section pe = Inr rdata
       \<and> Machine pe \<noteq> IMAGE_FILE_MACHINE_I386 \<and> Machine pe \<noteq> IMAGE_FILE_MACHINE_AMD64
       \<and> (\<forall>t \<in> set (extract_all_strings B (get_data rdata) min_length).
             b2s_kind t = py ''WIDE_STRING'' \<longrightarrow> encode_utf16le_ignore (b2s_text t) \<noteq> [])"
  then have "\<exists>out. fix_loop B min_length (get_data rdata) [] None
                     (extract_all_strings B (get_data rdata) min_length) = Inr out"
    by (intro fix_loop_total) simp
  then obtain fixed where
    "fix_b2s_wide_strings B (extract_all_strings B (get_data rdata) min_length) min_length
       (get_data rdata) = Inr fixed"
    by (auto simp: fix_b2s_wide_strings_def)
  with a show "get_string_blob_strings B pe min_length
                 = Inr ([Unsupported_architecture (Machine pe)], [])"
    by (simp add: get_string_blob_strings_def Let_def)
next
  assume "get_rdata_section pe = Inr rdata
       \<and> fix_b2s_wide_strings B (extract_all_strings B (get_data rdata) min_length) min_length
             (get_data rdata) = Inl err"
  then show "get_string_blob_strings B pe min_length = Inl err"
    by (simp add: get_string_blob_strings_def Let_def)
qed

theorem blob_strings_swallows_witness:
  "get_string_blob_strings
     \<lparr>extract_all_strings = (\<lambda>b n. [(py ''hello'', py ''UTF8'', (0, 5), True)]),
      extract_string = (\<lambda>b. ([], [], (0, 0), False))\<rparr>
     \<lparr>ImageBase = 0x400000, Machine = 0x014c, get_rdata_section = Inl (py ''no .rdata section found''),
      get_struct_string_candidates = [], find_lea_xrefs = [], find_push_xrefs = [],
      find_mov_xrefs = []\<rparr>
     4
   = Inr ([Cannot_extract_rust_strings (py ''no .rdata section found'')], [])
   \<and> get_string_blob_strings
     \<lparr>extract_all_strings = (\<lambda>b n. [(py ''hello'', py ''UTF8'', (0, 5), True)]),
      extract_string = (\<lambda>b. ([], [], (0, 0), False))\<rparr>
     \<lparr>ImageBase = 0x400000, Machine = 0x01c0,
      get_rdata_section = Inr \<lparr>VirtualAddress = 0x2000, PointerToRawData = 0x800,
                                SizeOfRawData = 0x200, get_data = py ''hello''\<rparr>,
      get_struct_string_candidates = [0x402002], find_lea_xrefs = [], find_push_xrefs = [],
      find_mov_xrefs = []\<rparr>
     4
   = Inr ([Unsupported_architecture 0x01c0], [])"
proof -
  let ?B = "\<lparr>extract_all_strings = (\<lambda>b n. [(py ''hello'', py ''UTF8'', (0, 5), True)]),
      extract_string = (\<lambda>b. ([], [], (0, 0), False))\<rparr>"
  let ?pe1 = "\<lparr>ImageBase = 0x400000, Machine = 0x014c,
      get_rdata_section = Inl (py ''no .rdata section found''),
      get_struct_string_candidates = [], find_lea_xrefs = [], find_push_xrefs = [],
      find_mov_xrefs = []\<rparr>"
  let ?rdata = "\<lparr>VirtualAddress = 0x2000, PointerToRawData = 0x800,
                                SizeOfRawData = 0x200, get_data = py ''hello''\<rparr>"
  let ?pe2 = "\<lparr>ImageBase = 0x400000, Machine = 0x01c0, get_rdata_section = Inr ?rdata,
      get_struct_string_candidates = [0x402002], find_lea_xrefs = [], find_push_xrefs = [],
      find_mov_xrefs = []\<rparr>"
  have h1: "get_rdata_section ?pe1 = Inl (py ''no .rdata section found'')" by simp
  have h2: "get_rdata_section ?pe2 = Inr ?rdata
       \<and> Machine ?pe2 \<noteq> IMAGE_FILE_MACHINE_I386 \<and> Machine ?pe2 \<noteq> IMAGE_FILE_MACHINE_AMD64
       \<and> (\<forall>t \<in> set (extract_all_strings ?B (get_data ?rdata) 4).
             b2s_kind t = py ''WIDE_STRING'' \<longrightarrow> encode_utf16le_ignore (b2s_text t) \<noteq> [])"
    using kinds_differ
    by (simp add: IMAGE_FILE_MACHINE_I386_def IMAGE_FILE_MACHINE_AMD64_def b2s_kind_def)
  from blob_strings_swallows
    [where pe = ?pe1 and B = ?B and min_length = 4 and e = "py ''no .rdata section found''"]
    h1
  have a: "get_string_blob_strings ?B ?pe1 4
             = Inr ([Cannot_extract_rust_strings (py ''no .rdata section found'')], [])"
    by blast
  from blob_strings_swallows [where pe = ?pe2 and B = ?B and min_length = 4 and rdata = ?rdata]
    h2
  have "get_string_blob_strings ?B ?pe2 4 = Inr ([Unsupported_architecture (Machine ?pe2)], [])"
    by blast
  then have b: "get_string_blob_strings ?B ?pe2 4 = Inr ([Unsupported_architecture 0x01c0], [])"
    by simp
  show ?thesis by (rule conjI [OF a b])
qed

theorem blob_strings_swallows_counterexample:
  "Machine
     \<lparr>ImageBase = 0x400000, Machine = 0x01c0,
      get_rdata_section = Inr \<lparr>VirtualAddress = 0x2000, PointerToRawData = 0x800,
                                SizeOfRawData = 0x200, get_data = [0, 0, 0, 0]\<rparr>,
      get_struct_string_candidates = [], find_lea_xrefs = [], find_push_xrefs = [],
      find_mov_xrefs = []\<rparr> \<noteq> IMAGE_FILE_MACHINE_I386
   \<and> Machine
     \<lparr>ImageBase = 0x400000, Machine = 0x01c0,
      get_rdata_section = Inr \<lparr>VirtualAddress = 0x2000, PointerToRawData = 0x800,
                                SizeOfRawData = 0x200, get_data = [0, 0, 0, 0]\<rparr>,
      get_struct_string_candidates = [], find_lea_xrefs = [], find_push_xrefs = [],
      find_mov_xrefs = []\<rparr> \<noteq> IMAGE_FILE_MACHINE_AMD64
   \<and> get_string_blob_strings
     \<lparr>extract_all_strings = (\<lambda>b n. [([], py ''WIDE_STRING'', (0, 0), False)]),
      extract_string = (\<lambda>b. ([], [], (0, 0), False))\<rparr>
     \<lparr>ImageBase = 0x400000, Machine = 0x01c0,
      get_rdata_section = Inr \<lparr>VirtualAddress = 0x2000, PointerToRawData = 0x800,
                                SizeOfRawData = 0x200, get_data = [0, 0, 0, 0]\<rparr>,
      get_struct_string_candidates = [], find_lea_xrefs = [], find_push_xrefs = [],
      find_mov_xrefs = []\<rparr>
     0
   = Inl IndexError"
  by (simp add: get_string_blob_strings_def fix_b2s_wide_strings_def encode_utf16le_ignore_def
      IMAGE_FILE_MACHINE_I386_def IMAGE_FILE_MACHINE_AMD64_def)

end
